theory Spec2Isabelle
  imports Main "HOL-Library.Multiset"
begin

section \<open>Python values used by the two dispatch scripts\<close>

text \<open>
  The payloads are Python dictionaries, lists, strings and integers; a dictionary keeps
  the insertion order of its keys, so it is an association list. A float can only come
  out of \<open>json.loads\<close>; the scripts never compute with one, so it is kept by its text.
\<close>

datatype json =
    JNull
  | JBool bool
  | JInt int
  | JFloat string
  | JStr string
  | JList "json list"
  | JObj "(string \<times> json) list"

datatype error = JSONDecodeError | TypeError | ValueError | AttributeError

datatype severity = Info | Warn | Err

type_synonym logger = "(severity \<times> string) list"

text \<open>\<open>d[k] = v\<close> on a dictionary: an existing key keeps its place, a new key goes last.\<close>

fun dict_set :: "string \<Rightarrow> json \<Rightarrow> (string \<times> json) list \<Rightarrow> (string \<times> json) list" where
  "dict_set k v [] = [(k, v)]"
| "dict_set k v ((k', v') # kvs) =
     (if k' = k then (k, v) # kvs else (k', v') # dict_set k v kvs)"

text \<open>Reading a payload back: a path of dictionary keys and list positions.\<close>

datatype key = Key string | Idx nat

fun json_at :: "key list \<Rightarrow> json \<Rightarrow> json option" where
  "json_at [] j = Some j"
| "json_at (Key k # ks) (JObj kvs) =
     (case map_of kvs k of None \<Rightarrow> None | Some v \<Rightarrow> json_at ks v)"
| "json_at (Idx n # ks) (JList xs) =
     (if n < length xs then json_at ks (xs ! n) else None)"
| "json_at (k # ks) j = None"

text \<open>Truthiness of an optional string argument (\<open>if self.args.object_name:\<close>).\<close>

fun truthy :: "string option \<Rightarrow> bool" where
  "truthy None = False"
| "truthy (Some s) = (s \<noteq> [])"

definition apostrophe :: char where
  "apostrophe = CHR 0x27"

text \<open>
  \<open>round(n / 10**6)\<close>: Python divides two integers into a float and rounds it to the
  nearest integer, a tie going to the even one. For \<open>n\<close> below \<open>2^32\<close> (the message field
  is an unsigned 32-bit integer) the float quotient lies on the same side of every
  half-integer as the exact quotient, and a tie is a float itself, so the result is the
  exact quotient rounded half to even, computed here on integers.
\<close>

definition round_div :: "nat \<Rightarrow> nat \<Rightarrow> int" where
  "round_div n d =
     (let q = n div d; r = n mod d
      in if 2 * r < d then int q
         else if d < 2 * r then int q + 1
         else if even q then int q else int q + 1)"

section \<open>dispatch\_arm\_task.py: the requester node\<close>

record args =
  fleet :: string
  robot :: string
  places :: "string list"
  action :: string
  action_desc :: string
  object_name :: "string option"
  action2 :: string
  action_desc2 :: string
  object_name2 :: "string option"
  start_time :: int
  priority :: int
  use_sim_time :: bool

record time_msg =
  sec :: int
  nanosec :: nat

text \<open>What a callback reads from outside the node: the clock and a fresh uuid.\<close>

record env =
  now :: time_msg
  uuid4 :: string

record api_request =
  request_id :: string
  json_msg :: json

text \<open>\<open>asyncio.Future\<close>: \<open>cancel()\<close> changes a pending future only.\<close>

datatype future = Pending | Cancelled | Finished json

fun cancel :: "future \<Rightarrow> future" where
  "cancel Pending = Cancelled"
| "cancel f = f"

text \<open>
  The node. \<open>task_pub\<close> holds the messages published on \<open>task_api_requests\<close>,
  \<open>zone_calls\<close> and \<open>effector_calls\<close> the requests handed to \<open>call_async\<close> (with the
  \<open>is_second\<close> flag their callback was given), \<open>zone_polls\<close> and \<open>effector_polls\<close> count the
  calls of \<open>wait_for_service\<close>, \<open>api_response_sub\<close> counts the subscriptions created.
\<close>

record node =
  msg_request_id :: string
  object_zone_name :: "string option"
  object_zone_name2 :: "string option"
  zone_requests_pending :: int
  effector_checks_pending :: int
  response :: future
  task_pub :: "api_request list"
  zone_calls :: "(string \<times> bool) list"
  effector_calls :: "(string \<times> string \<times> bool) list"
  zone_polls :: nat
  effector_polls :: nat
  api_response_sub :: nat
  sim_time_param :: bool
  log :: logger

definition new_node :: node where
  "new_node =
     \<lparr>msg_request_id = [], object_zone_name = None, object_zone_name2 = None,
      zone_requests_pending = 0, effector_checks_pending = 0, response = Pending,
      task_pub = [], zone_calls = [], effector_calls = [], zone_polls = 0,
      effector_polls = 0, api_response_sub = 0, sim_time_param = False, log = []\<rparr>"

subsection \<open>Composing the payload\<close>

definition zone_activity :: "string \<Rightarrow> string list \<Rightarrow> json" where
  "zone_activity zone_name pl =
     JObj [(''category'', JStr ''zone''),
           (''description'', JObj [(''zone'', JStr zone_name),
                                   (''places'', JList (map JStr pl))])]"

definition perform_action_activity :: "string \<Rightarrow> json \<Rightarrow> json" where
  "perform_action_activity act action_desc_dict =
     JObj [(''category'', JStr ''perform_action''),
           (''description'', JObj [(''unix_millis_action_duration_estimate'', JInt 60000),
                                   (''category'', JStr act),
                                   (''description'', action_desc_dict)])]"

text \<open>
  The helper \<open>add_action_activities\<close>; the list it appends to is passed and returned.
  \<open>loads\<close> stands for \<open>json.loads\<close> (\<open>None\<close> when it raises); assigning a key to
  anything but a dictionary raises \<open>TypeError\<close>.
\<close>

definition add_action_activities ::
  "(string \<Rightarrow> json option) \<Rightarrow> string \<Rightarrow> string option \<Rightarrow> string option \<Rightarrow> string \<Rightarrow>
   string list \<Rightarrow> json list \<Rightarrow> error + json list" where
  "add_action_activities loads act obj zone_name desc pl activities =
     (case loads desc of
        None \<Rightarrow> Inl JSONDecodeError
      | Some action_desc_dict \<Rightarrow>
          if truthy obj then
            (case zone_name of
               None \<Rightarrow> Inr activities
             | Some z \<Rightarrow>
                 (case action_desc_dict of
                    JObj kvs \<Rightarrow>
                      Inr (activities @
                           [zone_activity z pl,
                            perform_action_activity act
                              (JObj (dict_set ''zone_name'' (JStr z) kvs))])
                  | _ \<Rightarrow> Inl TypeError))
          else Inr (activities @ [perform_action_activity act action_desc_dict]))"

definition create_dispatch_arm_task ::
  "(string \<Rightarrow> json option) \<Rightarrow> env \<Rightarrow> args \<Rightarrow> node \<Rightarrow> error + (api_request \<times> node)" where
  "create_dispatch_arm_task loads e a s =
     (let rid = ''dispatch_arm_task_'' @ uuid4 e;
          targeted = (fleet a \<noteq> [] \<and> robot a \<noteq> []);
          s1 = (if targeted
                then s\<lparr>log := log s @
                       [(Info, ''Using '' @ [apostrophe] @ ''robot_task_request'' @ [apostrophe])]\<rparr>
                else s\<lparr>log := log s @
                       [(Info, ''Using '' @ [apostrophe] @ ''dispatch_task_request'' @ [apostrophe])]\<rparr>);
          payload = (if targeted
                     then [(''type'', JStr ''robot_task_request''),
                           (''robot'', JStr (robot a)),
                           (''fleet'', JStr (fleet a))]
                     else [(''type'', JStr ''dispatch_task_request'')]);
          now_sec = sec (now e) + start_time a;
          start = now_sec * 1000 + round_div (nanosec (now e)) (10 ^ 6)
      in case add_action_activities loads (action a) (object_name a) (object_zone_name s1)
                (action_desc a) (places a) [] of
           Inl err \<Rightarrow> Inl err
         | Inr acts1 \<Rightarrow>
             (case (if action2 a \<noteq> []
                    then add_action_activities loads (action2 a) (object_name2 a)
                           (object_zone_name2 s1) (action_desc2 a) (places a) acts1
                    else Inr acts1) of
                Inl err \<Rightarrow> Inl err
              | Inr activities \<Rightarrow>
                  Inr (\<lparr>request_id = rid,
                        json_msg =
                          JObj (payload @
                            [(''request'',
                              JObj [(''category'', JStr ''compose''),
                                    (''description'',
                                     JObj [(''category'', JStr (action a)),
                                           (''phases'',
                                            JList [JObj [(''activity'',
                                              JObj [(''category'', JStr ''sequence''),
                                                    (''description'',
                                                     JObj [(''activities'',
                                                            JList activities)])])]])]),
                                    (''unix_millis_earliest_start_time'', JInt start)])])\<rparr>,
                       s1)))"


definition send_dispatch_arm_task ::
  "(string \<Rightarrow> json option) \<Rightarrow> env \<Rightarrow> args \<Rightarrow> node \<Rightarrow> error + node" where
  "send_dispatch_arm_task loads e a s =
     (case create_dispatch_arm_task loads e a s of
        Inl err \<Rightarrow> Inl err
      | Inr (msg, s1) \<Rightarrow>
          Inr (s1\<lparr>task_pub := task_pub s1 @ [msg],
                  msg_request_id := request_id msg,
                  api_response_sub := Suc (api_response_sub s1)\<rparr>))"

subsection \<open>Issuing the verification requests\<close>

text \<open>
  \<open>while not client.wait_for_service(timeout_sec=5.0): log(...)\<close>. The service is outside
  the program: \<open>up k\<close> is what the \<open>k\<close>-th call of \<open>wait_for_service\<close> on that client
  returns. The loop has no bound of its own, so it is a partial function: \<open>None\<close> is the
  loop that never ends. It returns the number of calls made and the log.
\<close>

partial_function (option) wait_for_service ::
  "(nat \<Rightarrow> bool) \<Rightarrow> string \<Rightarrow> nat \<Rightarrow> logger \<Rightarrow> (nat \<times> logger) option" where
  "wait_for_service up waiting k lg =
     (if up k then Some (Suc k, lg)
      else wait_for_service up waiting (Suc k) (lg @ [(Info, waiting)]))"

record services =
  zone_service :: "nat \<Rightarrow> bool"
  effector_query_service :: "nat \<Rightarrow> bool"

definition send_zone_request :: "services \<Rightarrow> string \<Rightarrow> bool \<Rightarrow> node \<Rightarrow> node option" where
  "send_zone_request srv obj is_second s =
     (case wait_for_service (zone_service srv)
             ''Waiting for mm_zone_query to become available...'' (zone_polls s) (log s) of
        None \<Rightarrow> None
      | Some (k, lg) \<Rightarrow>
          Some (s\<lparr>zone_polls := k,
                   log := lg @ [(Info, ''Sending request to check zone for object ['' @ obj @ '']'')],
                   zone_calls := zone_calls s @ [(obj, is_second)]\<rparr>))"

definition send_effector_query ::
  "services \<Rightarrow> args \<Rightarrow> string \<Rightarrow> bool \<Rightarrow> node \<Rightarrow> node option" where
  "send_effector_query srv a action_name is_second s =
     (case wait_for_service (effector_query_service srv)
             (''Waiting for '' @ fleet a @ ''_effector_query to become available...'')
             (effector_polls s) (log s) of
        None \<Rightarrow> None
      | Some (k, lg) \<Rightarrow>
          Some (s\<lparr>effector_polls := k,
                   log := lg @ [(Info, ''Sending request to check effector for action ['' @
                                       action_name @ '']'')],
                   effector_calls := effector_calls s @ [(robot a, action_name, is_second)]\<rparr>))"

subsection \<open>The completion callbacks\<close>

text \<open>
  The responses of the two services, as far as the callbacks read them; \<open>effector_text\<close>
  is the text the response formats to in the log line.
\<close>

record zone_response =
  is_mm_zone :: bool
  zone_name :: string
  result :: string

record effector_response =
  effector_ready :: bool
  effector_text :: string

definition check_if_ready_to_dispatch ::
  "(string \<Rightarrow> json option) \<Rightarrow> env \<Rightarrow> args \<Rightarrow> node \<Rightarrow> error + node" where
  "check_if_ready_to_dispatch loads e a s =
     (if zone_requests_pending s = 0 \<and> effector_checks_pending s = 0
      then send_dispatch_arm_task loads e a
             (s\<lparr>log := log s @ [(Info, ''All checks complete, dispatching task'')]\<rparr>)
      else Inr s)"

definition zone_request_service_callback ::
  "(string \<Rightarrow> json option) \<Rightarrow> env \<Rightarrow> args \<Rightarrow> zone_response option \<Rightarrow> bool \<Rightarrow> node \<Rightarrow>
   error + node" where
  "zone_request_service_callback loads e a res is_second s =
     (case res of
        None \<Rightarrow>
          Inr (s\<lparr>log := log s @ [(Err, ''Service call failed'')],
                  response := cancel (response s)\<rparr>)
      | Some r \<Rightarrow>
          if \<not> is_mm_zone r \<or> zone_name r = [] then
            Inr (s\<lparr>log := log s @ [(Warn, ''Result: '' @ result r)],
                    response := cancel (response s)\<rparr>)
          else
            let s1 = (if is_second
                      then s\<lparr>object_zone_name2 := Some (zone_name r),
                             log := log s @ [(Info, ''Result (action2): '' @ result r)]\<rparr>
                      else s\<lparr>object_zone_name := Some (zone_name r),
                             log := log s @ [(Info, ''Result: '' @ result r)]\<rparr>);
                s2 = s1\<lparr>zone_requests_pending := zone_requests_pending s1 - 1\<rparr>
            in check_if_ready_to_dispatch loads e a s2)"

definition effector_query_service_callback ::
  "(string \<Rightarrow> json option) \<Rightarrow> env \<Rightarrow> args \<Rightarrow> effector_response option \<Rightarrow> bool \<Rightarrow> node \<Rightarrow>
   error + node" where
  "effector_query_service_callback loads e a res is_second s =
     (case res of
        None \<Rightarrow>
          Inr (s\<lparr>log := log s @ [(Err, ''Service call failed'')],
                  response := cancel (response s)\<rparr>)
      | Some r \<Rightarrow>
          let action_label = (if is_second then ''action2'' else ''action'') in
          if \<not> effector_ready r then
            Inr (s\<lparr>log := log s @ [(Warn, ''Effector not ready for '' @ action_label)],
                    response := cancel (response s)\<rparr>)
          else
            let s1 = s\<lparr>log := log s @
                           [(Info, ''Service call succeeded for '' @ action_label @ '': '' @
                                   effector_text r)]\<rparr>;
                s2 = s1\<lparr>effector_checks_pending := effector_checks_pending s1 - 1\<rparr>
            in check_if_ready_to_dispatch loads e a s2)"

subsection \<open>The constructor\<close>

text \<open>
  \<open>__init__\<close> after argument parsing. \<open>None\<close>: a wait for a service never ends;
  \<open>Some (Inl err)\<close>: it raises; \<open>Some (Inr s)\<close>: it returns the node \<open>s\<close>.
\<close>

definition init ::
  "(string \<Rightarrow> json option) \<Rightarrow> services \<Rightarrow> env \<Rightarrow> args \<Rightarrow> (error + node) option" where
  "init loads srv e a =
     (let s0 = (if use_sim_time a
                then new_node\<lparr>log := [(Info, ''Using Sim Time'')], sim_time_param := True\<rparr>
                else new_node)
      in if action a = ''arm_action'' then Some (send_dispatch_arm_task loads e a s0)
         else
           let s1 = (if truthy (object_name a)
                     then s0\<lparr>zone_requests_pending := zone_requests_pending s0 + 1\<rparr> else s0);
               s2 = (if action2 a \<noteq> [] \<and> truthy (object_name2 a)
                     then s1\<lparr>zone_requests_pending := zone_requests_pending s1 + 1\<rparr> else s1);
               s3 = s2\<lparr>effector_checks_pending := effector_checks_pending s2 + 1\<rparr>;
               s4 = (if action2 a \<noteq> []
                     then s3\<lparr>effector_checks_pending := effector_checks_pending s3 + 1\<rparr>
                     else s3)
           in Option.bind
                (case object_name a of
                   None \<Rightarrow> Some s4
                 | Some obj \<Rightarrow> if obj \<noteq> [] then send_zone_request srv obj False s4 else Some s4)
                (\<lambda>s5. Option.bind
                   (case object_name2 a of
                      None \<Rightarrow> Some s5
                    | Some obj2 \<Rightarrow>
                        if action2 a \<noteq> [] \<and> obj2 \<noteq> []
                        then send_zone_request srv obj2 True s5 else Some s5)
                   (\<lambda>s6. Option.bind (send_effector_query srv a (action a) False s6)
                      (\<lambda>s7. Option.bind
                         (if action2 a \<noteq> []
                          then send_effector_query srv a (action2 a) True s7 else Some s7)
                         (\<lambda>s8. Some (Inr s8))))))"

subsection \<open>Completions delivered to the node\<close>

text \<open>
  A completion is one call of a done-callback: the future's result (\<open>None\<close> when no
  result is available) and the \<open>is_second\<close> flag bound when the request was issued.
  The executor runs the callbacks one at a time; an exception raised in one ends the run.
\<close>

datatype completion =
    ZoneDone bool "zone_response option"
  | EffectorDone bool "effector_response option"

fun deliver ::
  "(string \<Rightarrow> json option) \<Rightarrow> args \<Rightarrow> env \<times> completion \<Rightarrow> node \<Rightarrow> error + node" where
  "deliver loads a (e, ZoneDone is_second res) s =
     zone_request_service_callback loads e a res is_second s"
| "deliver loads a (e, EffectorDone is_second res) s =
     effector_query_service_callback loads e a res is_second s"

fun run ::
  "(string \<Rightarrow> json option) \<Rightarrow> args \<Rightarrow> node \<Rightarrow> (env \<times> completion) list \<Rightarrow> error + node" where
  "run loads a s [] = Inr s"
| "run loads a s (c # cs) =
     (case deliver loads a c s of Inl err \<Rightarrow> Inl err | Inr s' \<Rightarrow> run loads a s' cs)"

text \<open>The request a completion answers, and the requests a node has issued.\<close>

datatype slot = ZoneSlot bool | EffectorSlot bool

fun slot_of :: "completion \<Rightarrow> slot" where
  "slot_of (ZoneDone is_second res) = ZoneSlot is_second"
| "slot_of (EffectorDone is_second res) = EffectorSlot is_second"

definition issued :: "node \<Rightarrow> slot list" where
  "issued s = map (\<lambda>(obj, is_second). ZoneSlot is_second) (zone_calls s) @
              map (\<lambda>(rob, act, is_second). EffectorSlot is_second) (effector_calls s)"

text \<open>A completion is a success when its callback reaches the decrement.\<close>

fun succeeded :: "completion \<Rightarrow> bool" where
  "succeeded (ZoneDone is_second None) = False"
| "succeeded (ZoneDone is_second (Some r)) = (is_mm_zone r \<and> zone_name r \<noteq> [])"
| "succeeded (EffectorDone is_second None) = False"
| "succeeded (EffectorDone is_second (Some r)) = effector_ready r"

text \<open>
  A validated configuration: every action description that is used parses, and parses
  to a dictionary where the slot has an object name (the zone name is stored in it).
\<close>

definition desc_ok :: "(string \<Rightarrow> json option) \<Rightarrow> string \<Rightarrow> string option \<Rightarrow> bool" where
  "desc_ok loads desc obj =
     (case loads desc of
        None \<Rightarrow> False
      | Some d \<Rightarrow> (case d of JObj kvs \<Rightarrow> True | _ \<Rightarrow> \<not> truthy obj))"

definition config_ok :: "(string \<Rightarrow> json option) \<Rightarrow> args \<Rightarrow> bool" where
  "config_ok loads a =
     (desc_ok loads (action_desc a) (object_name a) \<and>
      (action2 a = [] \<or> desc_ok loads (action_desc2 a) (object_name2 a)))"



subsection \<open>Reading a composed payload\<close>

definition composed ::
  "(string \<Rightarrow> json option) \<Rightarrow> env \<Rightarrow> args \<Rightarrow> node \<Rightarrow> json option" where
  "composed loads e a s =
     (case create_dispatch_arm_task loads e a s of
        Inl err \<Rightarrow> None
      | Inr (msg, s1) \<Rightarrow> Some (json_msg msg))"

definition activities_path :: "key list" where
  "activities_path =
     [Key ''request'', Key ''description'', Key ''phases'', Idx 0, Key ''activity'', Key ''description'',
      Key ''activities'']"

definition is_perform_action :: "string \<Rightarrow> json \<Rightarrow> bool" where
  "is_perform_action act j =
     (json_at [Key ''category''] j = Some (JStr ''perform_action'') \<and>
      json_at [Key ''description'', Key ''category''] j = Some (JStr act))"

text \<open>
  What one action slot contributes to the activities: with an object name and a zone
  name, the zone activity and then the action; with an object name and no zone name,
  nothing; without an object name, the action alone.
\<close>

definition in_fixed_order ::
  "string \<Rightarrow> string list \<Rightarrow> string option \<Rightarrow> string option \<Rightarrow> json list \<Rightarrow> bool" where
  "in_fixed_order act pl obj zone acts =
     (if truthy obj then
        (case zone of
           None \<Rightarrow> acts = []
         | Some z \<Rightarrow>
             (case acts of
                [x, y] \<Rightarrow> x = zone_activity z pl \<and> is_perform_action act y
              | _ \<Rightarrow> False))
      else (case acts of [y] \<Rightarrow> is_perform_action act y | _ \<Rightarrow> False))"

section \<open>dispatch\_couple\_decouple\_action.py\<close>

text \<open>
  The parsed arguments the constructor reads. The parser defines \<open>--zone_name\<close>; the
  constructor reads \<open>self.args.zone\<close>, an attribute the parser never sets: \<open>cd_zone\<close> is
  that attribute, \<open>None\<close> when the namespace does not have it (reading it then raises
  \<open>AttributeError\<close>). \<open>cd_candidates_robot\<close> is \<open>None\<close> for the default \<open>''\<close>.
\<close>

record cd_args =
  cd_fleet :: "string option"
  cd_robot :: "string option"
  cd_start_time :: int
  cd_use_sim_time :: bool
  cd_requester :: string
  cd_action :: string
  cd_zone_name :: string
  cd_zone :: "string option"
  cd_candidates_fleet :: "string option"
  cd_candidates_robot :: "string list option"
  cd_number_of_robots :: int

record cd_node =
  cd_response :: future
  cd_pub :: "api_request list"
  cd_sub :: nat
  cd_sim_time_param :: bool
  cd_log :: logger

definition cd_new_node :: cd_node where
  "cd_new_node =
     \<lparr>cd_response = Pending, cd_pub = [], cd_sub = 0, cd_sim_time_param = False, cd_log = []\<rparr>"

definition create_couple_decouple_desc ::
  "string \<Rightarrow> string \<Rightarrow> int \<Rightarrow> (string \<times> json) list \<Rightarrow> json" where
  "create_couple_decouple_desc act expected_zone number_of_robots input_candidates =
     (if act = ''couple'' then
        (if input_candidates \<noteq> [] then
           JObj [(''action'', JStr act),
                 (''number_of_robots'', JInt number_of_robots),
                 (''candidates'', JObj input_candidates),
                 (''expected_zone'', JStr expected_zone),
                 (''estimated_duration'', JInt 60)]
         else
           JObj [(''action'', JStr act),
                 (''number_of_robots'', JInt number_of_robots),
                 (''expected_zone'', JStr expected_zone),
                 (''estimated_duration'', JInt 60)])
      else JObj [(''estimated_duration'', JInt 60)])"

text \<open>
  The constructor: the exception it raises, if any, and the node as it is at that
  moment (or at the end).
\<close>

definition cd_init :: "env \<Rightarrow> cd_args \<Rightarrow> error option \<times> cd_node" where
  "cd_init e a =
     (let n1 = (if cd_use_sim_time a
                then cd_new_node\<lparr>cd_log := [(Info, ''Using Sim Time'')],
                                 cd_sim_time_param := True\<rparr>
                else cd_new_node);
          rid = ''couple_decouple_action_'' @ uuid4 e;
          targeted = (truthy (cd_fleet a) \<and> truthy (cd_robot a));
          n2 = (if targeted
                then n1\<lparr>cd_log := cd_log n1 @
                       [(Info, ''Using '' @ [apostrophe] @ ''robot_task_request'' @ [apostrophe])]\<rparr>
                else n1\<lparr>cd_log := cd_log n1 @
                       [(Info, ''Using '' @ [apostrophe] @ ''dispatch_task_request'' @ [apostrophe])]\<rparr>);
          payload = (if targeted
                     then [(''type'', JStr ''robot_task_request''),
                           (''robot'', JStr (case cd_robot a of None \<Rightarrow> [] | Some r \<Rightarrow> r)),
                           (''fleet'', JStr (case cd_fleet a of None \<Rightarrow> [] | Some f \<Rightarrow> f))]
                     else [(''type'', JStr ''dispatch_task_request'')]);
          now_sec = sec (now e) + cd_start_time a;
          start = now_sec * 1000 + round_div (nanosec (now e)) (10 ^ 6);
          request = [(''unix_millis_request_time'', JInt start),
                     (''unix_millis_earliest_start_time'', JInt start),
                     (''requester'', JStr (cd_requester a))] @
                    (case cd_fleet a of
                       None \<Rightarrow> []
                     | Some f \<Rightarrow> if f \<noteq> [] then [(''fleet_name'', JStr f)] else []);
          number_of_robots = (if 2 \<le> cd_number_of_robots a then cd_number_of_robots a else 2);
          input_candidates =
            (case cd_candidates_robot a of
               None \<Rightarrow> []
             | Some robots \<Rightarrow>
                 [(''fleet'', case cd_candidates_fleet a of None \<Rightarrow> JNull | Some f \<Rightarrow> JStr f),
                  (''robots'', JList (map JStr robots))])
      in if cd_action a \<notin> {''couple'', ''decouple''} then (Some ValueError, n2)
         else
           (case cd_zone a of
              None \<Rightarrow> (Some AttributeError, n2)
            | Some z \<Rightarrow>
                let activities =
                      (if cd_action a = ''couple''
                       then [JObj [(''category'', JStr ''couple_action''),
                                   (''description'',
                                    create_couple_decouple_desc ''couple'' z number_of_robots
                                      input_candidates)]]
                       else [JObj [(''category'', JStr ''decouple_action''),
                                   (''description'',
                                    create_couple_decouple_desc ''decouple'' z number_of_robots
                                      input_candidates)]]);
                    description =
                      JObj [(''category'', JStr ''testing_couple_decouple_action''),
                            (''phases'',
                             JList [JObj [(''activity'',
                               JObj [(''category'', JStr ''sequence''),
                                     (''description'',
                                      JObj [(''activities'', JList activities)])])]])];
                    msg = \<lparr>request_id = rid,
                           json_msg =
                             JObj (payload @
                               [(''request'',
                                 JObj (request @ [(''category'', JStr ''compose''),
                                                  (''description'', description)]))])\<rparr>
                in (None, n2\<lparr>cd_sub := Suc (cd_sub n2), cd_pub := cd_pub n2 @ [msg]\<rparr>)))"

section \<open>Concrete inputs\<close>

definition loads_braces :: "string \<Rightarrow> json option" where
  "loads_braces str = (if str = ''{}'' then Some (JObj []) else None)"

definition loads_brackets :: "string \<Rightarrow> json option" where
  "loads_brackets str =
     (if str = ''{}'' then Some (JObj []) else if str = ''[]'' then Some (JList []) else None)"

definition env0 :: env where
  "env0 = \<lparr>now = \<lparr>sec = 100, nanosec = 1500000\<rparr>, uuid4 = ''u''\<rparr>"

definition scan_args :: args where
  "scan_args =
     \<lparr>fleet = ''f'', robot = ''r'', places = [''wp1''], action = ''scan'',
      action_desc = ''{}'', object_name = Some ''bin7'', action2 = [],
      action_desc2 = ''{}'', object_name2 = None, start_time = 5, priority = 0,
      use_sim_time = False\<rparr>"

definition arm_args :: args where
  "arm_args = scan_args\<lparr>action := ''arm_action''\<rparr>"

definition bad_json_args :: args where
  "bad_json_args = scan_args\<lparr>action_desc := ''{bad''\<rparr>"

definition list_desc_args :: args where
  "list_desc_args = scan_args\<lparr>action_desc := ''[]''\<rparr>"


definition always_up :: "nat \<Rightarrow> bool" where
  "always_up k = True"

definition never_up :: "nat \<Rightarrow> bool" where
  "never_up k = False"

definition up_from :: "nat \<Rightarrow> nat \<Rightarrow> bool" where
  "up_from n k = (n \<le> k)"

definition services_up :: services where
  "services_up = \<lparr>zone_service = always_up, effector_query_service = always_up\<rparr>"

definition services_down :: services where
  "services_down = \<lparr>zone_service = never_up, effector_query_service = never_up\<rparr>"

definition zone_confirmed :: zone_response where
  "zone_confirmed = \<lparr>is_mm_zone = True, zone_name = ''Z3'', result = ''in zone''\<rparr>"

definition zone_rejected :: zone_response where
  "zone_rejected = \<lparr>is_mm_zone = False, zone_name = [], result = ''not in a zone''\<rparr>"

definition effector_confirmed :: effector_response where
  "effector_confirmed = \<lparr>effector_ready = True, effector_text = ''ready''\<rparr>"

definition effector_rejected :: effector_response where
  "effector_rejected = \<lparr>effector_ready = False, effector_text = ''busy''\<rparr>"

definition cd_args0 :: cd_args where
  "cd_args0 =
     \<lparr>cd_fleet = None, cd_robot = None, cd_start_time = 0, cd_use_sim_time = False,
      cd_requester = ''rmf_demos_tasks'', cd_action = ''dock'', cd_zone_name = ''Z3'',
      cd_zone = None, cd_candidates_fleet = None, cd_candidates_robot = None,
      cd_number_of_robots = 2\<rparr>"

section \<open>Vocabulary of the proofs\<close>

text \<open>
  The constructor followed by the delivery of completions, all at one clock reading, and
  a field of the node this leaves; used to state facts about concrete runs.
\<close>

definition session ::
  "(string \<Rightarrow> json option) \<Rightarrow> services \<Rightarrow> env \<Rightarrow> args \<Rightarrow> completion list \<Rightarrow> (error + node) option" where
  "session loads srv e a cs =
     (case init loads srv e a of
        None \<Rightarrow> None
      | Some (Inl err) \<Rightarrow> Some (Inl err)
      | Some (Inr s0) \<Rightarrow> Some (run loads a s0 (map (Pair e) cs)))"

definition observe :: "(node \<Rightarrow> 'a) \<Rightarrow> (error + node) option \<Rightarrow> 'a option" where
  "observe f r = (case r of Some (Inr s) \<Rightarrow> Some (f s) | _ \<Rightarrow> None)"

definition services_late :: services where
  "services_late = \<lparr>zone_service = up_from 2, effector_query_service = never_up\<rparr>"

text \<open>
  What the counting argument looks at: the two pending counters, the number of messages
  published and the future. \<open>count_step\<close> is one completion seen through that view.
\<close>

fun is_zone :: "completion \<Rightarrow> bool" where
  "is_zone (ZoneDone b r) = True"
| "is_zone (EffectorDone b r) = False"

fun is_zone_slot :: "slot \<Rightarrow> bool" where
  "is_zone_slot (ZoneSlot b) = True"
| "is_zone_slot (EffectorSlot b) = False"

definition zone_count :: "completion list \<Rightarrow> nat" where
  "zone_count cs = length (filter is_zone cs)"

definition effector_count :: "completion list \<Rightarrow> nat" where
  "effector_count cs = length (filter (\<lambda>c. \<not> is_zone c) cs)"

definition zone_successes :: "completion list \<Rightarrow> nat" where
  "zone_successes cs = length (filter (\<lambda>c. is_zone c \<and> succeeded c) cs)"

definition effector_successes :: "completion list \<Rightarrow> nat" where
  "effector_successes cs = length (filter (\<lambda>c. \<not> is_zone c \<and> succeeded c) cs)"

definition view :: "node \<Rightarrow> int \<times> int \<times> nat \<times> future" where
  "view s = (zone_requests_pending s, effector_checks_pending s, length (task_pub s), response s)"

fun count_step :: "int \<times> int \<times> nat \<times> future \<Rightarrow> completion \<Rightarrow> int \<times> int \<times> nat \<times> future" where
  "count_step (z, e, n, f) c =
     (if succeeded c then
        (let z' = (if is_zone c then z - 1 else z);
             e' = (if is_zone c then e else e - 1)
         in (z', e', (if z' = 0 \<and> e' = 0 then Suc n else n), f))
      else (z, e, n, cancel f))"

definition fired :: "int \<times> int \<times> nat \<times> future \<Rightarrow> nat" where
  "fired v = fst (snd (snd v))"

section \<open>Rounding and the wait loop\<close>


lemma wait_up: "up k \<Longrightarrow> wait_for_service up w k lg = Some (Suc k, lg)"
  by (subst wait_for_service.simps) simp

lemma wait_down: "\<not> up k \<Longrightarrow> wait_for_service up w k lg = wait_for_service up w (Suc k) (lg @ [(Info, w)])"
  by (subst wait_for_service.simps) simp

lemma wait_Some_up:
  assumes "wait_for_service up w k lg = Some y"
  shows "\<exists>j\<ge>k. up j"
proof (rule wait_for_service.raw_induct
         [where P = "\<lambda>up w k lg y. \<exists>j\<ge>k. up j", OF _ assms], goal_cases)
  case (1 wfs up w k lg y)
  show ?case
  proof (cases "up k")
    case True
    then show ?thesis by auto
  next
    case False
    with 1(2) have "wfs up w (Suc k) (lg @ [(Info, w)]) = Some y" by simp
    then have "\<exists>j\<ge>Suc k. up j" by (rule 1(1))
    then show ?thesis using Suc_leD by blast
  qed
qed

lemma wait_returns: "k \<le> j \<Longrightarrow> up j \<Longrightarrow> \<exists>y. wait_for_service up w k lg = Some y"
proof (induction "j - k" arbitrary: k lg)
  case 0
  then have "up k" by simp
  then show ?case by (simp add: wait_up)
next
  case (Suc d)
  show ?case
  proof (cases "up k")
    case True
    then show ?thesis by (simp add: wait_up)
  next
    case False
    from Suc(2) Suc(3) have "d = j - Suc k" "Suc k \<le> j" by auto
    from Suc(1)[OF this Suc(4)] show ?thesis using wait_down[of up k w lg] False by simp
  qed
qed

lemma wait_None_iff: "wait_for_service up w k lg = None \<longleftrightarrow> (\<forall>j\<ge>k. \<not> up j)"
  using wait_Some_up[of up w k lg] wait_returns[of k _ up w lg]
  by (cases "wait_for_service up w k lg") fastforce+

lemma wait_always_up: "wait_for_service always_up w k lg = Some (Suc k, lg)"
  by (rule wait_up) (simp add: always_up_def)

lemma wait_never_up: "wait_for_service never_up w k lg = None"
  by (simp add: wait_None_iff never_up_def)

section \<open>Composing and sending\<close>

lemma cancel_idem: "cancel (cancel f) = cancel f"
  by (cases f) auto

lemma add_action_ok:
  "desc_ok loads desc obj \<Longrightarrow> \<exists>acts'. add_action_activities loads act obj z desc pl acts = Inr acts'"
  by (auto simp: desc_ok_def add_action_activities_def split: option.splits json.splits)

lemma add_action_shape:
  assumes "add_action_activities loads act obj zone desc pl acts = Inr acts'"
  shows "\<exists>new. acts' = acts @ new \<and> in_fixed_order act pl obj zone new"
  using assms
  by (auto simp: add_action_activities_def in_fixed_order_def is_perform_action_def
        perform_action_activity_def
      split: option.splits if_splits json.splits)

lemma create_ok:
  assumes ok: "config_ok loads a"
  shows "\<exists>m s'. create_dispatch_arm_task loads e a s = Inr (m, s')"
proof -
  from ok obtain acts1 where a1: "add_action_activities loads (action a) (object_name a)
      (object_zone_name s) (action_desc a) (places a) [] = Inr acts1"
    using add_action_ok unfolding config_ok_def by blast
  show ?thesis
  proof (cases "action2 a = []")
    case True
    then show ?thesis
      by (simp add: create_dispatch_arm_task_def Let_def a1)
  next
    case False
    with ok obtain acts where a2: "add_action_activities loads (action2 a) (object_name2 a)
                           (object_zone_name2 s) (action_desc2 a) (places a) acts1 = Inr acts"
      using add_action_ok unfolding config_ok_def by blast
    from False show ?thesis
      by (simp add: create_dispatch_arm_task_def Let_def a1 a2)
  qed
qed



lemma create_node:
  "create_dispatch_arm_task loads e a s = Inr (m, s') \<Longrightarrow> \<exists>lg. s' = s\<lparr>log := lg\<rparr>"
  by (auto simp: create_dispatch_arm_task_def Let_def split: sum.splits if_splits)

lemma composed_request:
  assumes "composed loads e a s = Some p"
  shows "\<exists>acts1 acts.
     add_action_activities loads (action a) (object_name a) (object_zone_name s)
       (action_desc a) (places a) [] = Inr acts1 \<and>
     (if action2 a \<noteq> []
      then add_action_activities loads (action2 a) (object_name2 a) (object_zone_name2 s)
             (action_desc2 a) (places a) acts1
      else Inr acts1) = Inr acts \<and>
     json_at [Key ''request''] p =
       Some (JObj [(''category'', JStr ''compose''),
                   (''description'',
                    JObj [(''category'', JStr (action a)),
                          (''phases'',
                           JList [JObj [(''activity'',
                             JObj [(''category'', JStr ''sequence''),
                                   (''description'',
                                    JObj [(''activities'', JList acts)])])]])]),
                   (''unix_millis_earliest_start_time'',
                    JInt ((sec (now e) + start_time a) * 1000 +
                          round_div (nanosec (now e)) (10 ^ 6)))])"
  using assms
  by (auto simp: composed_def create_dispatch_arm_task_def Let_def split: sum.splits if_splits)

lemma json_at_request:
  "json_at [Key ''request''] p = Some r \<Longrightarrow> json_at (Key ''request'' # ks) p = json_at ks r"
  by (cases p) (auto split: option.splits)

lemma send_view:
  "case send_dispatch_arm_task loads e a s of
     Inl err \<Rightarrow> \<not> config_ok loads a
   | Inr s' \<Rightarrow> view s' = (zone_requests_pending s, effector_checks_pending s,
                          Suc (length (task_pub s)), response s)"
proof (cases "create_dispatch_arm_task loads e a s")
  case (Inl err)
  then show ?thesis using create_ok[where loads=loads and a=a and e=e and s=s] by (auto simp: send_dispatch_arm_task_def)
next
  case (Inr p)
  obtain m s' where p: "p = (m, s')" by (cases p)
  from create_node[OF Inr[unfolded p]] obtain lg where "s' = s\<lparr>log := lg\<rparr>" ..
  then show ?thesis using Inr p by (simp add: send_dispatch_arm_task_def view_def)
qed

lemma send_dispatch_fields:
  assumes "send_dispatch_arm_task loads e a s = Inr s'"
  shows "zone_calls s' = zone_calls s" "effector_calls s' = effector_calls s"
    "zone_polls s' = zone_polls s" "effector_polls s' = effector_polls s"
    "\<exists>m. task_pub s' = task_pub s @ [m] \<and> composed loads e a s = Some (json_msg m)"
    "response s' = response s"
proof -
  from assms obtain m s1 where c: "create_dispatch_arm_task loads e a s = Inr (m, s1)"
    and s': "s' = s1\<lparr>task_pub := task_pub s1 @ [m], msg_request_id := request_id m,
                  api_response_sub := Suc (api_response_sub s1)\<rparr>"
    by (auto simp: send_dispatch_arm_task_def split: sum.splits)
  from create_node[OF c] obtain lg where s1: "s1 = s\<lparr>log := lg\<rparr>" ..
  show "zone_calls s' = zone_calls s" "effector_calls s' = effector_calls s"
    "zone_polls s' = zone_polls s" "effector_polls s' = effector_polls s"
    by (simp_all add: s' s1)
  show "\<exists>m. task_pub s' = task_pub s @ [m] \<and> composed loads e a s = Some (json_msg m)"
    by (simp add: s' s1 composed_def c)
  show "response s' = response s"
    by (simp add: s' s1)
qed

lemma check_view:
  "case check_if_ready_to_dispatch loads e a s of
     Inl err \<Rightarrow> \<not> config_ok loads a \<and> zone_requests_pending s = 0 \<and> effector_checks_pending s = 0
   | Inr s' \<Rightarrow> view s' = (zone_requests_pending s, effector_checks_pending s,
                          (if zone_requests_pending s = 0 \<and> effector_checks_pending s = 0
                           then Suc (length (task_pub s)) else length (task_pub s)), response s)"
  using send_view[where loads=loads and e=e and a=a and s="s\<lparr>log := log s @ [(Info, ''All checks complete, dispatching task'')]\<rparr>"]
  by (auto simp: check_if_ready_to_dispatch_def view_def split: sum.splits)

lemma check_count:
  assumes "zone_requests_pending s2 = z'" "effector_checks_pending s2 = e'"
          "task_pub s2 = task_pub s" "response s2 = response s"
  shows "case check_if_ready_to_dispatch loads e a s2 of
     Inl err \<Rightarrow> \<not> config_ok loads a \<and> z' = 0 \<and> e' = 0
   | Inr s' \<Rightarrow> view s' = (z', e', (if z' = 0 \<and> e' = 0 then Suc (length (task_pub s))
                                    else length (task_pub s)), response s)"
  using check_view[where loads=loads and e=e and a=a and s=s2] unfolding assms
  by (cases "check_if_ready_to_dispatch loads e a s2") simp_all

section \<open>One completion, then a run of them\<close>

lemma deliver_view:
  "case deliver loads a (e, c) s of
     Inl err \<Rightarrow> \<not> config_ok loads a \<and> length (task_pub s) < fst (snd (snd (count_step (view s) c)))
   | Inr s' \<Rightarrow> view s' = count_step (view s) c"
proof (cases c)
  case (ZoneDone b r)
  show ?thesis
  proof (cases "succeeded c")
    case False
    then show ?thesis using ZoneDone
      by (cases r) (auto simp: zone_request_service_callback_def view_def)
  next
    case True
    then obtain zr where r: "r = Some zr" "is_mm_zone zr" "zone_name zr \<noteq> []"
      using ZoneDone by (cases r) auto
    define s1 where "s1 = (if b then s\<lparr>object_zone_name2 := Some (zone_name zr),
                             log := log s @ [(Info, ''Result (action2): '' @ result zr)]\<rparr>
                      else s\<lparr>object_zone_name := Some (zone_name zr),
                             log := log s @ [(Info, ''Result: '' @ result zr)]\<rparr>)"
    define s2 where "s2 = s1\<lparr>zone_requests_pending := zone_requests_pending s1 - 1\<rparr>"
    have d: "deliver loads a (e, c) s = check_if_ready_to_dispatch loads e a s2"
      using ZoneDone r by (simp add: zone_request_service_callback_def Let_def s1_def s2_def)
    have f: "zone_requests_pending s2 = zone_requests_pending s - 1"
            "effector_checks_pending s2 = effector_checks_pending s"
            "task_pub s2 = task_pub s" "response s2 = response s"
      by (simp_all add: s1_def s2_def)
    have cs: "count_step (view s) c =
        (zone_requests_pending s - 1, effector_checks_pending s,
         (if zone_requests_pending s - 1 = 0 \<and> effector_checks_pending s = 0
          then Suc (length (task_pub s)) else length (task_pub s)), response s)"
      using True ZoneDone by (simp add: view_def Let_def)
    show ?thesis unfolding d cs using check_count[OF f, where loads=loads and e=e and a=a]
      by (cases "check_if_ready_to_dispatch loads e a s2") simp_all
  qed
next
  case (EffectorDone b r)
  show ?thesis
  proof (cases "succeeded c")
    case False
    then show ?thesis using EffectorDone
      by (cases r) (auto simp: effector_query_service_callback_def view_def Let_def)
  next
    case True
    then obtain er where r: "r = Some er" "effector_ready er"
      using EffectorDone by (cases r) auto
    define s1 where "s1 = s\<lparr>log := log s @
         [(Info, ''Service call succeeded for '' @ (if b then ''action2'' else ''action'') @
                 '': '' @ effector_text er)]\<rparr>"
    define s2 where "s2 = s1\<lparr>effector_checks_pending := effector_checks_pending s1 - 1\<rparr>"
    have d: "deliver loads a (e, c) s = check_if_ready_to_dispatch loads e a s2"
      using EffectorDone r by (simp add: effector_query_service_callback_def Let_def s1_def s2_def)
    have f: "zone_requests_pending s2 = zone_requests_pending s"
            "effector_checks_pending s2 = effector_checks_pending s - 1"
            "task_pub s2 = task_pub s" "response s2 = response s"
      by (simp_all add: s1_def s2_def)
    have cs: "count_step (view s) c =
        (zone_requests_pending s, effector_checks_pending s - 1,
         (if zone_requests_pending s = 0 \<and> effector_checks_pending s - 1 = 0
          then Suc (length (task_pub s)) else length (task_pub s)), response s)"
      using True EffectorDone by (simp add: view_def Let_def)
    show ?thesis unfolding d cs using check_count[OF f, where loads=loads and e=e and a=a]
      by (cases "check_if_ready_to_dispatch loads e a s2") simp_all
  qed
qed

lemma fired_step: "fired v \<le> fired (count_step v c)"
  by (cases v) (auto simp: fired_def Let_def)

lemma fired_foldl: "fired v \<le> fired (foldl count_step v cs)"
proof (induction cs arbitrary: v)
  case Nil
  show ?case by simp
next
  case (Cons c cs)
  show ?case using fired_step[of v c] Cons[of "count_step v c"] by simp
qed

lemma fired_view: "fired (view s) = length (task_pub s)"
  by (simp add: fired_def view_def)

lemma run_view:
  "case run loads a s cs of
     Inl err \<Rightarrow> \<not> config_ok loads a \<and>
                length (task_pub s) < fired (foldl count_step (view s) (map snd cs))
   | Inr s' \<Rightarrow> view s' = foldl count_step (view s) (map snd cs)"
proof (induction cs arbitrary: s)
  case Nil
  show ?case by simp
next
  case (Cons ec cs)
  obtain e c where ec: "ec = (e, c)" by (cases ec)
  show ?case
  proof (cases "deliver loads a (e, c) s")
    case (Inl err)
    with deliver_view[where loads=loads and a=a and e=e and c=c and s=s]
    have "\<not> config_ok loads a" "length (task_pub s) < fired (count_step (view s) c)"
      by (simp_all add: fired_def)
    moreover have "fired (count_step (view s) c) \<le> fired (foldl count_step (count_step (view s) c) (map snd cs))"
      by (rule fired_foldl)
    ultimately show ?thesis using Inl ec by simp
  next
    case (Inr s')
    with deliver_view[where loads=loads and a=a and e=e and c=c and s=s]
    have v: "view s' = count_step (view s) c" by simp
    have le: "length (task_pub s) \<le> length (task_pub s')"
      using fired_step[of "view s" c] unfolding v[symmetric] fired_view .
    show ?thesis
    proof (cases "run loads a s' cs")
      case (Inl err)
      with Cons[of s'] have "\<not> config_ok loads a"
        "length (task_pub s') < fired (foldl count_step (view s') (map snd cs))" by simp_all
      then show ?thesis using Inl Inr ec le v by simp
    next
      case (Inr s'')
      with Cons[of s'] have "view s'' = foldl count_step (view s') (map snd cs)" by simp
      then show ?thesis using Inr \<open>deliver loads a (e, c) s = Inr s'\<close> ec v by simp
    qed
  qed
qed


lemma successes_Cons:
  "zone_successes (c # cs) = (if is_zone c \<and> succeeded c then Suc (zone_successes cs) else zone_successes cs)"
  "effector_successes (c # cs) = (if \<not> is_zone c \<and> succeeded c then Suc (effector_successes cs) else effector_successes cs)"
  by (simp_all add: zone_successes_def effector_successes_def)

lemma successes_Nil: "zone_successes [] = 0" "effector_successes [] = 0"
  by (simp_all add: zone_successes_def effector_successes_def)

lemma tally_closed:
  "int (zone_successes cs) \<le> z \<Longrightarrow> int (effector_successes cs) \<le> e \<Longrightarrow>
   foldl count_step (z, e, n, f) cs =
     (z - int (zone_successes cs), e - int (effector_successes cs),
      (if int (zone_successes cs) = z \<and> int (effector_successes cs) = e \<and>
          0 < zone_successes cs + effector_successes cs then Suc n else n),
      (if \<forall>c\<in>set cs. succeeded c then f else cancel f))"
proof (induction cs arbitrary: z e n f)
  case Nil
  show ?case by (simp add: successes_Nil)
next
  case (Cons c cs)
  show ?case
  proof (cases "succeeded c")
    case False
    then have s: "zone_successes (c # cs) = zone_successes cs"
      "effector_successes (c # cs) = effector_successes cs" by (simp_all add: successes_Cons)
    from Cons(2,3) have "int (zone_successes cs) \<le> z" "int (effector_successes cs) \<le> e"
      unfolding s by simp_all
    from Cons(1)[OF this, of n "cancel f"] False show ?thesis
      unfolding s by (simp add: cancel_idem)
  next
    case True
    show ?thesis
    proof (cases "is_zone c")
      case z: True
      with True have s: "zone_successes (c # cs) = Suc (zone_successes cs)"
        "effector_successes (c # cs) = effector_successes cs" by (simp_all add: successes_Cons)
      from Cons(2,3) have b: "int (zone_successes cs) \<le> z - 1" "int (effector_successes cs) \<le> e"
        unfolding s by simp_all
      from Cons(1)[OF b, of "if z - 1 = 0 \<and> e = 0 then Suc n else n" f] True z b show ?thesis
        unfolding s by (auto simp: Let_def)
    next
      case z: False
      with True have s: "zone_successes (c # cs) = zone_successes cs"
        "effector_successes (c # cs) = Suc (effector_successes cs)" by (simp_all add: successes_Cons)
      from Cons(2,3) have b: "int (zone_successes cs) \<le> z" "int (effector_successes cs) \<le> e - 1"
        unfolding s by simp_all
      from Cons(1)[OF b, of "if z = 0 \<and> e - 1 = 0 then Suc n else n" f] True z b show ?thesis
        unfolding s by (auto simp: Let_def)
    qed
  qed
qed

section \<open>Counting completions against issued requests\<close>

lemma is_zone_slot_of: "is_zone_slot (slot_of c) = is_zone c"
  by (cases c) auto

lemma counts_Cons:
  "zone_count (c # cs) = (if is_zone c then Suc (zone_count cs) else zone_count cs)"
  "effector_count (c # cs) = (if is_zone c then effector_count cs else Suc (effector_count cs))"
  by (simp_all add: zone_count_def effector_count_def)

lemma counts_sum: "zone_count cs + effector_count cs = length cs"
  by (induction cs) (auto simp: counts_Cons zone_count_def effector_count_def)

lemma successes_le:
  "zone_successes cs \<le> zone_count cs" "effector_successes cs \<le> effector_count cs"
  by (induction cs) (auto simp: counts_Cons successes_Cons zone_count_def effector_count_def successes_Nil)

lemma successes_all:
  "(zone_successes cs = zone_count cs \<and> effector_successes cs = effector_count cs) \<longleftrightarrow>
   (\<forall>c\<in>set cs. succeeded c)"
proof (induction cs)
  case Nil
  show ?case by (simp add: successes_Nil zone_count_def effector_count_def)
next
  case (Cons c cs)
  show ?case using Cons successes_le[of cs]
    by (auto simp: counts_Cons successes_Cons)
qed

lemma counts_issued:
  "length (filter is_zone_slot (issued s)) = length (zone_calls s)"
  "length (filter (\<lambda>x. \<not> is_zone_slot x) (issued s)) = length (effector_calls s)"
proof -
  have a: "\<And>xs :: (string \<times> bool) list. filter is_zone_slot (map (\<lambda>(obj, b). ZoneSlot b) xs) = map (\<lambda>(obj, b). ZoneSlot b) xs"
    "\<And>xs :: (string \<times> bool) list. filter (\<lambda>x. \<not> is_zone_slot x) (map (\<lambda>(obj, b). ZoneSlot b) xs) = []"
    subgoal for xs by (induction xs) auto
    subgoal for xs by (induction xs) auto
    done
  have b: "\<And>ys :: (string \<times> string \<times> bool) list. filter is_zone_slot (map (\<lambda>(rob, act, b). EffectorSlot b) ys) = []"
    "\<And>ys :: (string \<times> string \<times> bool) list. filter (\<lambda>x. \<not> is_zone_slot x) (map (\<lambda>(rob, act, b). EffectorSlot b) ys) = map (\<lambda>(rob, act, b). EffectorSlot b) ys"
    subgoal for ys by (induction ys) auto
    subgoal for ys by (induction ys) auto
    done
  show "length (filter is_zone_slot (issued s)) = length (zone_calls s)"
    "length (filter (\<lambda>x. \<not> is_zone_slot x) (issued s)) = length (effector_calls s)"
    by (simp_all add: issued_def a b)
qed

lemma counts_slots:
  "zone_count (map snd ecs) = length (filter is_zone_slot (map (slot_of \<circ> snd) ecs))"
  "effector_count (map snd ecs) = length (filter (\<lambda>x. \<not> is_zone_slot x) (map (slot_of \<circ> snd) ecs))"
  by (induction ecs) (auto simp: counts_Cons is_zone_slot_of zone_count_def effector_count_def)

lemma counts_sub:
  assumes "mset (map (slot_of \<circ> snd) ecs) \<subseteq># mset (issued s)"
  shows "zone_count (map snd ecs) \<le> length (zone_calls s)"
    and "effector_count (map snd ecs) \<le> length (effector_calls s)"
proof -
  have "\<And>P. size (filter_mset P (mset (map (slot_of \<circ> snd) ecs))) \<le> size (filter_mset P (mset (issued s)))"
    using assms by (intro size_mset_mono multiset_filter_mono)
  then have "\<And>P. length (filter P (map (slot_of \<circ> snd) ecs)) \<le> length (filter P (issued s))"
    by (simp only: mset_filter[symmetric] size_mset)
  then show "zone_count (map snd ecs) \<le> length (zone_calls s)"
    and "effector_count (map snd ecs) \<le> length (effector_calls s)"
    unfolding counts_slots counts_issued[symmetric] by blast+
qed

lemma counts_eq:
  assumes "mset (map (slot_of \<circ> snd) ecs) = mset (issued s)"
  shows "zone_count (map snd ecs) = length (zone_calls s)"
    and "effector_count (map snd ecs) = length (effector_calls s)"
proof -
  have "\<And>P. length (filter P (map (slot_of \<circ> snd) ecs)) = length (filter P (issued s))"
    by (metis assms mset_filter size_mset)
  then show "zone_count (map snd ecs) = length (zone_calls s)"
    and "effector_count (map snd ecs) = length (effector_calls s)"
    unfolding counts_slots counts_issued[symmetric] by blast+
qed

lemma coordinator:
  assumes v0: "view s0 = (int zn, int en, 0, Pending)"
    and zc: "zone_count (map snd ecs) \<le> zn" and ec: "effector_count (map snd ecs) \<le> en"
    and pos: "0 < zn + en"
  shows "case run loads a s0 ecs of
           Inl err \<Rightarrow> \<not> config_ok loads a \<and> (\<forall>c\<in>set ecs. succeeded (snd c)) \<and>
                      length ecs = zn + en
         | Inr s \<Rightarrow> view s =
             (int zn - int (zone_successes (map snd ecs)),
              int en - int (effector_successes (map snd ecs)),
              (if (\<forall>c\<in>set ecs. succeeded (snd c)) \<and> length ecs = zn + en then 1 else 0),
              (if \<forall>c\<in>set ecs. succeeded (snd c) then Pending else Cancelled))"
proof -
  let ?cs = "map snd ecs"
  have le: "zone_successes ?cs \<le> zn" "effector_successes ?cs \<le> en"
    using successes_le[of ?cs] zc ec by simp_all
  have all: "(\<forall>c\<in>set ecs. succeeded (snd c)) \<longleftrightarrow> (\<forall>c\<in>set ?cs. succeeded c)" by simp
  have cond: "(int (zone_successes ?cs) = int zn \<and> int (effector_successes ?cs) = int en \<and>
               0 < zone_successes ?cs + effector_successes ?cs) \<longleftrightarrow>
              ((\<forall>c\<in>set ecs. succeeded (snd c)) \<and> length ecs = zn + en)"
    using successes_all[of ?cs] successes_le[of ?cs] zc ec pos counts_sum[of ?cs]
    unfolding all by auto
  have t: "foldl count_step (view s0) ?cs =
     (int zn - int (zone_successes ?cs), int en - int (effector_successes ?cs),
      (if (\<forall>c\<in>set ecs. succeeded (snd c)) \<and> length ecs = zn + en then 1 else 0),
      (if \<forall>c\<in>set ecs. succeeded (snd c) then Pending else Cancelled))"
    unfolding v0 using tally_closed[of ?cs "int zn" "int en" 0 Pending] le
    unfolding cond all by simp
  have s0: "length (task_pub s0) = 0" using v0 by (simp add: view_def)
  show ?thesis
    using run_view[where loads=loads and a=a and s=s0 and cs=ecs] unfolding t s0
    by (cases "run loads a s0 ecs") (simp_all add: fired_def split: if_splits)
qed

section \<open>The constructor\<close>

lemma send_zone_fields:
  assumes "send_zone_request srv obj b s = Some s'"
  shows "view s' = view s" "zone_calls s' = zone_calls s @ [(obj, b)]"
        "effector_calls s' = effector_calls s"
  using assms by (auto simp: send_zone_request_def view_def split: option.splits)

lemma send_effector_fields:
  assumes "send_effector_query srv a act b s = Some s'"
  shows "view s' = view s" "zone_calls s' = zone_calls s"
        "effector_calls s' = effector_calls s @ [(robot a, act, b)]"
  using assms by (auto simp: send_effector_query_def view_def split: option.splits)

lemma init_gated:
  assumes na: "action a \<noteq> ''arm_action''" and i: "init loads srv e a = Some r"
  shows "\<exists>s0. r = Inr s0 \<and>
           view s0 = (int (length (zone_calls s0)), int (length (effector_calls s0)), 0, Pending) \<and>
           effector_calls s0 \<noteq> []"
proof -
  define s0 where "s0 = (if use_sim_time a
                then new_node\<lparr>log := [(Info, ''Using Sim Time'')], sim_time_param := True\<rparr>
                else new_node)"
  define s1 where "s1 = (if truthy (object_name a)
                     then s0\<lparr>zone_requests_pending := zone_requests_pending s0 + 1\<rparr> else s0)"
  define s2 where "s2 = (if action2 a \<noteq> [] \<and> truthy (object_name2 a)
                     then s1\<lparr>zone_requests_pending := zone_requests_pending s1 + 1\<rparr> else s1)"
  define s3 where "s3 = s2\<lparr>effector_checks_pending := effector_checks_pending s2 + 1\<rparr>"
  define s4 where "s4 = (if action2 a \<noteq> []
                     then s3\<lparr>effector_checks_pending := effector_checks_pending s3 + 1\<rparr>
                     else s3)"
  define n1 :: nat where "n1 = (if truthy (object_name a) then 1 else 0)"
  define n2 :: nat where "n2 = (if action2 a \<noteq> [] \<and> truthy (object_name2 a) then 1 else 0)"
  define m2 :: nat where "m2 = (if action2 a \<noteq> [] then 1 else 0)"
  have v4: "view s4 = (int (n1 + n2), int (1 + m2), 0, Pending)"
    "zone_calls s4 = []" "effector_calls s4 = []"
    by (simp_all add: s4_def s3_def s2_def s1_def s0_def new_node_def view_def n1_def n2_def m2_def)
  from i na obtain s5 s6 s7 s8 where
    b5: "(case object_name a of
                   None \<Rightarrow> Some s4
                 | Some obj \<Rightarrow> if obj \<noteq> [] then send_zone_request srv obj False s4 else Some s4) = Some s5"
    and b6: "(case object_name2 a of
                      None \<Rightarrow> Some s5
                    | Some obj2 \<Rightarrow>
                        if action2 a \<noteq> [] \<and> obj2 \<noteq> []
                        then send_zone_request srv obj2 True s5 else Some s5) = Some s6"
    and b7: "send_effector_query srv a (action a) False s6 = Some s7"
    and b8: "(if action2 a \<noteq> []
                          then send_effector_query srv a (action2 a) True s7 else Some s7) = Some s8"
    and r: "r = Inr s8"
    unfolding init_def Let_def s0_def[symmetric] s1_def[symmetric] s2_def[symmetric]
      s3_def[symmetric] s4_def[symmetric]
    by (auto simp: bind_eq_Some_conv)
  have v5: "view s5 = view s4" "length (zone_calls s5) = n1" "effector_calls s5 = []"
    using b5 v4 send_zone_fields[of srv _ False s4 s5]
    by (auto simp: n1_def split: option.splits if_splits)
  have v6: "view s6 = view s4" "length (zone_calls s6) = n1 + n2" "effector_calls s6 = []"
    using b6 v5 send_zone_fields[of srv _ True s5 s6]
    by (auto simp: n2_def split: option.splits if_splits)
  have v7: "view s7 = view s4" "length (zone_calls s7) = n1 + n2" "length (effector_calls s7) = 1"
    using b7 v6 send_effector_fields[of srv a _ False s6 s7] by auto
  have v8: "view s8 = view s4" "length (zone_calls s8) = n1 + n2" "length (effector_calls s8) = 1 + m2"
    using b8 v7 send_effector_fields[of srv a _ True s7 s8]
    by (auto simp: m2_def split: if_splits)
  from v8 v4 r show ?thesis by auto
qed

lemma init_arm:
  assumes "action a = ''arm_action''"
  shows "init loads srv e a = Some (send_dispatch_arm_task loads e a
           (if use_sim_time a
            then new_node\<lparr>log := [(Info, ''Using Sim Time'')], sim_time_param := True\<rparr>
            else new_node))"
  using assms by (simp add: init_def Let_def)

lemma init_arm_issued:
  assumes "action a = ''arm_action''" "init loads srv e a = Some (Inr s)"
  shows "issued s = []"
  using assms send_dispatch_fields(1,2)[of loads e a _ s]
  by (auto simp: init_arm issued_def new_node_def split: if_splits)

text \<open>
  A configuration needs no verification exactly when its action is \<open>arm_action\<close>: every
  other action is given at least its own effector check.
\<close>

lemma no_requests_iff_arm_action:
  assumes "init loads srv e a = Some (Inr s)"
  shows "issued s = [] \<longleftrightarrow> action a = ''arm_action''"
proof
  assume "issued s = []"
  then have "effector_calls s = []" by (simp add: issued_def)
  then show "action a = ''arm_action''" using init_gated[OF _ assms] by auto
next
  assume "action a = ''arm_action''"
  then show "issued s = []" using assms by (rule init_arm_issued)
qed

section \<open>Concrete runs\<close>

lemma config_ok_scan: "config_ok loads_braces scan_args" "config_ok loads_braces arm_args"
  by (simp_all add: config_ok_def desc_ok_def loads_braces_def scan_args_def arm_args_def)

lemma init_scan:
  "init loads_braces services_up env0 scan_args =
     Some (Inr (new_node\<lparr>zone_requests_pending := 1, effector_checks_pending := 1,
        zone_calls := [(''bin7'', False)], effector_calls := [(''r'', ''scan'', False)],
        zone_polls := 1, effector_polls := 1,
        log := [(Info, ''Sending request to check zone for object [bin7]''),
                (Info, ''Sending request to check effector for action [scan]'')]\<rparr>))"
  by (simp add: init_def Let_def scan_args_def services_up_def send_zone_request_def
        send_effector_query_def wait_always_up new_node_def)

lemma init_invalid:
  "init loads services_up env0 bad_json_args =
     Some (Inr (new_node\<lparr>zone_requests_pending := 1, effector_checks_pending := 1,
        zone_calls := [(''bin7'', False)], effector_calls := [(''r'', ''scan'', False)],
        zone_polls := 1, effector_polls := 1,
        log := [(Info, ''Sending request to check zone for object [bin7]''),
                (Info, ''Sending request to check effector for action [scan]'')]\<rparr>))"
  "init loads services_up env0 list_desc_args =
     Some (Inr (new_node\<lparr>zone_requests_pending := 1, effector_checks_pending := 1,
        zone_calls := [(''bin7'', False)], effector_calls := [(''r'', ''scan'', False)],
        zone_polls := 1, effector_polls := 1,
        log := [(Info, ''Sending request to check zone for object [bin7]''),
                (Info, ''Sending request to check effector for action [scan]'')]\<rparr>))"
  by (simp_all add: init_def Let_def bad_json_args_def list_desc_args_def scan_args_def
        services_up_def send_zone_request_def send_effector_query_def wait_always_up
        new_node_def)

lemmas callback_defs =
  zone_request_service_callback_def effector_query_service_callback_def
  check_if_ready_to_dispatch_def

lemma composed_scan:
  "composed loads_braces env0 scan_args new_node \<noteq> None"
  "composed loads_braces env0 arm_args new_node \<noteq> None"
  "composed loads_braces env0 scan_args (new_node\<lparr>object_zone_name := Some ''Z3''\<rparr>) \<noteq> None"
  by (simp_all add: composed_def create_dispatch_arm_task_def add_action_activities_def
        loads_braces_def scan_args_def arm_args_def new_node_def Let_def)

section \<open>The claims\<close>

text \<open>
  Claim C1, as stated, fails: nothing checks the action descriptions before the
  dispatch, where the composer parses them. With a description that is not JSON, or one
  that parses to a list while the slot has an object name, both completions of a
  one-action, one-object configuration succeed, nothing has been published after the
  first, and the second raises in the composer instead of publishing.
\<close>

theorem invalid_description_counterexample:
  "session loads_brackets services_up env0 bad_json_args
     [EffectorDone False (Some effector_confirmed), ZoneDone False (Some zone_confirmed)] =
     Some (Inl JSONDecodeError) \<and>
   session loads_brackets services_up env0 list_desc_args
     [EffectorDone False (Some effector_confirmed), ZoneDone False (Some zone_confirmed)] =
     Some (Inl TypeError) \<and>
   observe task_pub (session loads_brackets services_up env0 bad_json_args
     [EffectorDone False (Some effector_confirmed)]) = Some [] \<and>
   observe task_pub (session loads_brackets services_up env0 list_desc_args
     [EffectorDone False (Some effector_confirmed)]) = Some [] \<and>
   succeeded (EffectorDone False (Some effector_confirmed)) \<and>
   succeeded (ZoneDone False (Some zone_confirmed))"
  unfolding session_def init_invalid
  by (simp add: observe_def bad_json_args_def list_desc_args_def
        callback_defs new_node_def zone_confirmed_def effector_confirmed_def Let_def
        send_dispatch_arm_task_def create_dispatch_arm_task_def add_action_activities_def
        loads_brackets_def scan_args_def)

text \<open>
  Claim C1, amended. The configuration's action descriptions are valid (\<open>config_ok\<close>):
  each one that is used parses, and parses to a dictionary where its slot has an object
  name. The constructor has returned the node \<open>s0\<close> with at least one verification
  request issued, and the completions \<open>ecs\<close> answer each issued request exactly once, in
  any order. Then the run of the callbacks ends in a node with at most one published
  message; it has exactly one if and only if every completion is a success, which is
  also exactly when both pending counters are zero; and after any proper prefix of the
  completions nothing has been published yet.
\<close>

theorem publishes_once_iff_all_succeed:
  assumes i: "init loads srv e0 a = Some (Inr s0)"
    and n: "issued s0 \<noteq> []"
    and ok: "config_ok loads a"
    and p: "mset (map (slot_of \<circ> snd) ecs) = mset (issued s0)"
  shows "\<exists>s. run loads a s0 ecs = Inr s \<and> length (task_pub s) \<le> 1 \<and>
           (length (task_pub s) = 1 \<longleftrightarrow> (\<forall>ec\<in>set ecs. succeeded (snd ec))) \<and>
           (length (task_pub s) = 1 \<longleftrightarrow>
              zone_requests_pending s = 0 \<and> effector_checks_pending s = 0) \<and>
           (\<forall>k<length ecs. \<exists>s'. run loads a s0 (take k ecs) = Inr s' \<and> task_pub s' = [])"
proof -
  from i n have na: "action a \<noteq> ''arm_action''" using init_arm_issued by blast
  from init_gated[OF na i] have
    v0: "view s0 = (int (length (zone_calls s0)), int (length (effector_calls s0)), 0, Pending)"
    and pos: "0 < length (zone_calls s0) + length (effector_calls s0)" by auto
  let ?zn = "length (zone_calls s0)" and ?en = "length (effector_calls s0)"
  note ce = counts_eq[OF p]
  have len: "length ecs = ?zn + ?en" using counts_sum[of "map snd ecs"] ce by simp
  from coordinator[OF v0 _ _ pos, of ecs loads a] ce ok obtain s where
    r: "run loads a s0 ecs = Inr s" and
    v: "view s = (int ?zn - int (zone_successes (map snd ecs)),
              int ?en - int (effector_successes (map snd ecs)),
              (if (\<forall>c\<in>set ecs. succeeded (snd c)) \<and> length ecs = ?zn + ?en then 1 else 0),
              (if \<forall>c\<in>set ecs. succeeded (snd c) then Pending else Cancelled))"
    by (cases "run loads a s0 ecs") auto
  have sa: "(zone_successes (map snd ecs) = ?zn \<and> effector_successes (map snd ecs) = ?en)
        \<longleftrightarrow> (\<forall>c\<in>set ecs. succeeded (snd c))"
    using successes_all[of "map snd ecs"] ce by simp
  have sl: "zone_successes (map snd ecs) \<le> ?zn" "effector_successes (map snd ecs) \<le> ?en"
    using successes_le[of "map snd ecs"] ce by simp_all
  have pre: "\<exists>s'. run loads a s0 (take k ecs) = Inr s' \<and> task_pub s' = []" if k: "k < length ecs" for k
  proof -
    have sub: "mset (map (slot_of \<circ> snd) (take k ecs)) \<subseteq># mset (issued s0)"
      unfolding p[symmetric] by (metis append_take_drop_id map_append mset_append mset_subset_eq_add_left)
    note cs = counts_sub[OF sub]
    have l: "length (take k ecs) \<noteq> ?zn + ?en" using k len by simp
    from coordinator[OF v0 cs pos, of loads a] ok l show ?thesis
      by (cases "run loads a s0 (take k ecs)") (auto simp: view_def)
  qed
  show ?thesis
    using r v len sa sl pre by (auto simp: view_def split: if_splits)
qed

theorem publishes_once_iff_all_succeed_witness:
  "map_option length (observe task_pub (session loads_braces services_up env0 scan_args
     [EffectorDone False (Some effector_confirmed), ZoneDone False (Some zone_confirmed)])) =
   Some 1"
proof -
  obtain s0 where i: "init loads_braces services_up env0 scan_args = Some (Inr s0)"
    and iss: "issued s0 = [ZoneSlot False, EffectorSlot False]"
    by (simp add: init_scan issued_def new_node_def)
  let ?ecs = "map (Pair env0)
     [EffectorDone False (Some effector_confirmed), ZoneDone False (Some zone_confirmed)]"
  have n: "issued s0 \<noteq> []" by (simp add: iss)
  have p: "mset (map (slot_of \<circ> snd) ?ecs) = mset (issued s0)" by (simp add: iss)
  from publishes_once_iff_all_succeed[OF i n config_ok_scan(1) p] obtain s where
    "run loads_braces scan_args s0 ?ecs = Inr s" "length (task_pub s) = 1"
    by (auto simp: effector_confirmed_def zone_confirmed_def)
  then show ?thesis by (simp add: session_def observe_def i)
qed




text \<open>
  Claim C3, as stated, fails: the outer \<open>category\<close> of the request is the constant
  \<open>compose\<close>, not the first action's name (here \<open>scan\<close>).
\<close>

theorem outer_category_counterexample:
  "Option.bind (composed loads_braces env0 scan_args new_node)
     (json_at [Key ''request'', Key ''category'']) = Some (JStr ''compose'') \<and>
   action scan_args = ''scan''"
  by (simp add: composed_def create_dispatch_arm_task_def add_action_activities_def
        loads_braces_def scan_args_def new_node_def Let_def)

text \<open>
  Claim C3, amended. In every composed payload, with or without a second action, the
  request's \<open>category\<close> is \<open>compose\<close> and its \<open>description.category\<close> is the first
  action's name.
\<close>

theorem payload_categories:
  assumes "composed loads e a s = Some p"
  shows "json_at [Key ''request'', Key ''category''] p = Some (JStr ''compose'') \<and>
         json_at [Key ''request'', Key ''description'', Key ''category''] p = Some (JStr (action a))"
proof -
  from composed_request[OF assms] obtain r where
    "json_at [Key ''request''] p = Some r"
    "json_at [Key ''category''] r = Some (JStr ''compose'')"
    "json_at [Key ''description'', Key ''category''] r = Some (JStr (action a))"
    by auto
  then show ?thesis by (simp add: json_at_request)
qed

theorem payload_categories_witness:
  "Option.bind (composed loads_braces env0 scan_args new_node)
     (json_at [Key ''request'', Key ''description'', Key ''category'']) = Some (JStr ''scan'') \<and>
   Option.bind (composed loads_braces env0 scan_args new_node)
     (json_at [Key ''request'', Key ''category'']) = Some (JStr ''compose'')"
proof -
  obtain p where p: "composed loads_braces env0 scan_args new_node = Some p"
    using composed_scan(1) by blast
  from payload_categories[OF p] show ?thesis unfolding p by (simp add: scan_args_def)
qed

text \<open>
  Claim C4, as stated, fails: a configured action can contribute no activity at all.
  With action \<open>arm_action\<close> and an object name the constructor composes the payload
  before any zone name is known, and the one message it publishes has an empty
  activities list: not even \<open>perform_action\<close> is there.
\<close>

theorem empty_slot_counterexample:
  "map_option (map (json_at activities_path \<circ> json_msg))
     (observe task_pub (session loads_braces services_down env0 arm_args [])) =
     Some [Some (JList [])] \<and>
   action arm_args = ''arm_action'' \<and> object_name arm_args = Some ''bin7''"
  by (simp add: session_def observe_def init_def send_dispatch_arm_task_def
        create_dispatch_arm_task_def add_action_activities_def
        loads_braces_def scan_args_def arm_args_def new_node_def Let_def activities_path_def)

text \<open>
  Claim C4, amended. In every composed payload the activities of the single
  \<open>sequence\<close> phase are one flat list, the first action's contribution followed by the
  second action's (empty when no second action is configured). A contribution is the
  \<open>perform_action\<close> activity alone when the slot has no object name, the zone activity
  followed by the \<open>perform_action\<close> activity when it has an object name and a zone name,
  and empty when it has an object name and no zone name.
\<close>

theorem activities_flat_in_order:
  assumes "composed loads e a s = Some p"
  shows "\<exists>acts1 acts2.
           json_at activities_path p = Some (JList (acts1 @ acts2)) \<and>
           in_fixed_order (action a) (places a) (object_name a) (object_zone_name s) acts1 \<and>
           (if action2 a = [] then acts2 = []
            else in_fixed_order (action2 a) (places a) (object_name2 a) (object_zone_name2 s) acts2)"
proof -
  from composed_request[OF assms] obtain acts1 acts r where
    a1: "add_action_activities loads (action a) (object_name a) (object_zone_name s)
       (action_desc a) (places a) [] = Inr acts1" and
    a2: "(if action2 a \<noteq> []
      then add_action_activities loads (action2 a) (object_name2 a) (object_zone_name2 s)
             (action_desc2 a) (places a) acts1
      else Inr acts1) = Inr acts" and
    r: "json_at [Key ''request''] p = Some r" and
    ra: "json_at (tl activities_path) r = Some (JList acts)"
    by (auto simp: activities_path_def)
  from add_action_shape[OF a1] have o1:
    "in_fixed_order (action a) (places a) (object_name a) (object_zone_name s) acts1" by simp
  have "\<exists>acts2. acts = acts1 @ acts2 \<and> (if action2 a = [] then acts2 = []
            else in_fixed_order (action2 a) (places a) (object_name2 a) (object_zone_name2 s) acts2)"
    (is "\<exists>acts2. ?Q acts2")
  proof (cases "action2 a = []")
    case True
    with a2 show ?thesis by simp
  next
    case False
    with a2 add_action_shape show ?thesis by auto
  qed
  then obtain acts2 where q: "?Q acts2" ..
  have "json_at activities_path p = Some (JList acts)"
    using json_at_request[OF r, of "tl activities_path"] ra by (simp add: activities_path_def)
  with q o1 show ?thesis by (intro exI[of _ acts1] exI[of _ acts2]) simp
qed

theorem activities_flat_in_order_witness:
  "\<exists>acts1. Option.bind (composed loads_braces env0 scan_args
                          (new_node\<lparr>object_zone_name := Some ''Z3''\<rparr>))
              (json_at activities_path) = Some (JList acts1) \<and>
           in_fixed_order ''scan'' [''wp1''] (Some ''bin7'') (Some ''Z3'') acts1"
proof -
  obtain p where p: "composed loads_braces env0 scan_args
      (new_node\<lparr>object_zone_name := Some ''Z3''\<rparr>) = Some p"
    using composed_scan(3) by blast
  from activities_flat_in_order[OF p] show ?thesis unfolding p by (simp add: scan_args_def new_node_def)
qed



text \<open>
  Claim C6. A completion without a result and a completion with a negative result
  (not a zone, or an empty zone name; effector not ready) leave the same node but for the
  log line: both return, both call \<open>cancel\<close> on the future, so that a pending outcome
  becomes cancelled, and neither changes a pending counter, a zone name or the published
  messages. This holds for the zone callback and for the effector callback.
\<close>

theorem unavailable_same_as_rejected:
  assumes "\<not> (is_mm_zone zr \<and> zone_name zr \<noteq> [])" and "\<not> effector_ready er"
  shows "(\<exists>s1 s2.
            zone_request_service_callback loads e a None b s = Inr s1 \<and>
            zone_request_service_callback loads e a (Some zr) b s = Inr s2 \<and>
            s1\<lparr>log := []\<rparr> = s\<lparr>response := cancel (response s), log := []\<rparr> \<and>
            s2\<lparr>log := []\<rparr> = s\<lparr>response := cancel (response s), log := []\<rparr> \<and>
            log s1 = log s @ [(Err, ''Service call failed'')] \<and>
            log s2 = log s @ [(Warn, ''Result: '' @ result zr)] \<and>
            (response s = Pending \<longrightarrow> response s1 = Cancelled \<and> response s2 = Cancelled) \<and>
            zone_requests_pending s1 = zone_requests_pending s \<and>
            zone_requests_pending s2 = zone_requests_pending s \<and>
            effector_checks_pending s1 = effector_checks_pending s \<and>
            effector_checks_pending s2 = effector_checks_pending s \<and>
            task_pub s1 = task_pub s \<and> task_pub s2 = task_pub s) \<and>
         (\<exists>s1 s2.
            effector_query_service_callback loads e a None b s = Inr s1 \<and>
            effector_query_service_callback loads e a (Some er) b s = Inr s2 \<and>
            s1\<lparr>log := []\<rparr> = s\<lparr>response := cancel (response s), log := []\<rparr> \<and>
            s2\<lparr>log := []\<rparr> = s\<lparr>response := cancel (response s), log := []\<rparr> \<and>
            log s1 = log s @ [(Err, ''Service call failed'')] \<and>
            log s2 = log s @ [(Warn, ''Effector not ready for '' @
                                     (if b then ''action2'' else ''action''))] \<and>
            (response s = Pending \<longrightarrow> response s1 = Cancelled \<and> response s2 = Cancelled) \<and>
            zone_requests_pending s1 = zone_requests_pending s \<and>
            zone_requests_pending s2 = zone_requests_pending s \<and>
            effector_checks_pending s1 = effector_checks_pending s \<and>
            effector_checks_pending s2 = effector_checks_pending s \<and>
            task_pub s1 = task_pub s \<and> task_pub s2 = task_pub s)"
  using assms
  by (auto simp: zone_request_service_callback_def effector_query_service_callback_def Let_def)

theorem unavailable_same_as_rejected_witness:
  "(\<exists>s1 s2. zone_request_service_callback loads_braces env0 scan_args None False new_node = Inr s1 \<and>
      zone_request_service_callback loads_braces env0 scan_args (Some zone_rejected) False new_node
        = Inr s2 \<and>
      s1\<lparr>log := []\<rparr> = s2\<lparr>log := []\<rparr> \<and>
      response s1 = Cancelled \<and> response s2 = Cancelled) \<and>
   (\<exists>s1 s2. effector_query_service_callback loads_braces env0 scan_args None False new_node = Inr s1 \<and>
      effector_query_service_callback loads_braces env0 scan_args (Some effector_rejected) False
        new_node = Inr s2 \<and>
      s1\<lparr>log := []\<rparr> = s2\<lparr>log := []\<rparr> \<and>
      response s1 = Cancelled \<and> response s2 = Cancelled)"
proof -
  have h: "\<not> (is_mm_zone zone_rejected \<and> zone_name zone_rejected \<noteq> [])"
    "\<not> effector_ready effector_rejected"
    by (simp_all add: zone_rejected_def effector_rejected_def)
  have pn: "response new_node = Pending" by (simp add: new_node_def)
  note th = unavailable_same_as_rejected[OF h, of loads_braces env0 scan_args False new_node]
  from th[THEN conjunct1] pn obtain s1 s2 where
    z: "zone_request_service_callback loads_braces env0 scan_args None False new_node = Inr s1"
       "zone_request_service_callback loads_braces env0 scan_args (Some zone_rejected) False
          new_node = Inr s2"
       "s1\<lparr>log := []\<rparr> = s2\<lparr>log := []\<rparr>" "response s1 = Cancelled" "response s2 = Cancelled"
    by (elim exE conjE) simp
  from th[THEN conjunct2] pn obtain t1 t2 where
    f: "effector_query_service_callback loads_braces env0 scan_args None False new_node = Inr t1"
       "effector_query_service_callback loads_braces env0 scan_args (Some effector_rejected)
          False new_node = Inr t2"
       "t1\<lparr>log := []\<rparr> = t2\<lparr>log := []\<rparr>" "response t1 = Cancelled" "response t2 = Cancelled"
    by (elim exE conjE) simp
  from z f show ?thesis by blast
qed




text \<open>
  Claim C8, as stated, fails: the wait for a service is repeated without bound. When
  the zone service never becomes available, the constructor of a configuration with an
  object name never returns.
\<close>

theorem never_available_counterexample:
  "init loads_braces services_down env0 scan_args = None"
  by (simp add: init_def Let_def scan_args_def services_down_def send_zone_request_def
        wait_never_up)

text \<open>
  Claim C8, amended. An unreachable service is never given up on. Issuing a zone request
  or an effector query fails to return exactly when no later call of
  \<open>wait_for_service\<close> on that client finds the service; when it returns, the request
  has been issued and the future is untouched. The constructor of a configuration other
  than \<open>arm_action\<close> never returns when the effector service is never found, or when
  the configuration has an object name (for the first action, or for a configured second
  action) and the zone service is never found; and a constructor that returns always
  leaves the future pending, so the wait never turns into a cancellation.
\<close>

theorem service_wait_unbounded:
  "(send_zone_request srv obj b s = None \<longleftrightarrow> (\<forall>k\<ge>zone_polls s. \<not> zone_service srv k)) \<and>
   (send_effector_query srv a act b s = None \<longleftrightarrow>
      (\<forall>k\<ge>effector_polls s. \<not> effector_query_service srv k)) \<and>
   (\<forall>s'. send_zone_request srv obj b s = Some s' \<longrightarrow>
      response s' = response s \<and> zone_calls s' = zone_calls s @ [(obj, b)]) \<and>
   (\<forall>s'. send_effector_query srv a act b s = Some s' \<longrightarrow>
      response s' = response s \<and> effector_calls s' = effector_calls s @ [(robot a, act, b)]) \<and>
   (\<forall>loads e s'. init loads srv e a = Some (Inr s') \<longrightarrow> response s' = Pending) \<and>
   (\<forall>loads e. action a \<noteq> ''arm_action'' \<and>
        (((truthy (object_name a) \<or> action2 a \<noteq> [] \<and> truthy (object_name2 a)) \<and>
          (\<forall>k. \<not> zone_service srv k)) \<or>
         (\<forall>k. \<not> effector_query_service srv k)) \<longrightarrow>
      init loads srv e a = None)"
proof -
  have z: "send_zone_request srv obj b s = None \<longleftrightarrow> (\<forall>k\<ge>zone_polls s. \<not> zone_service srv k)"
    unfolding wait_None_iff[of "zone_service srv"
        "''Waiting for mm_zone_query to become available...''" "zone_polls s" "log s", symmetric]
    by (simp add: send_zone_request_def split: option.splits)
  have f: "send_effector_query srv a act b s = None \<longleftrightarrow>
      (\<forall>k\<ge>effector_polls s. \<not> effector_query_service srv k)"
    unfolding wait_None_iff[of "effector_query_service srv"
        "''Waiting for '' @ fleet a @ ''_effector_query to become available...''"
        "effector_polls s" "log s", symmetric]
    by (simp add: send_effector_query_def split: option.splits)
  have i: "response s' = Pending" if "init loads srv e a = Some (Inr s')" for loads e s'
  proof (cases "action a = ''arm_action''")
    case True
    with that have "\<exists>s0. send_dispatch_arm_task loads e a s0 = Inr s' \<and> response s0 = Pending"
      by (auto simp: init_arm new_node_def split: if_splits)
    then show ?thesis using send_dispatch_fields(6) by metis
  next
    case False
    from init_gated[OF False that] show ?thesis by (auto simp: view_def)
  qed
  have zn: "send_zone_request srv ob c t = None" if "\<forall>k. \<not> zone_service srv k" for ob c t
  proof -
    have "wait_for_service (zone_service srv) w k lg = None" for w k lg
      using that by (simp add: wait_None_iff)
    then show ?thesis by (simp add: send_zone_request_def)
  qed
  have en: "send_effector_query srv a ac c t = None" if "\<forall>k. \<not> effector_query_service srv k"
    for ac c t
  proof -
    have "wait_for_service (effector_query_service srv) w k lg = None" for w k lg
      using that by (simp add: wait_None_iff)
    then show ?thesis by (simp add: send_effector_query_def)
  qed
  have i1: "init loads srv e a = None"
    if "action a \<noteq> ''arm_action''"
      "truthy (object_name a) \<or> action2 a \<noteq> [] \<and> truthy (object_name2 a)"
      "\<forall>k. \<not> zone_service srv k"
    for loads e
    using that zn
    by (cases "object_name a"; cases "object_name2 a") (auto simp: init_def Let_def)
  have i2: "init loads srv e a = None"
    if na: "action a \<noteq> ''arm_action''" and d: "\<forall>k. \<not> effector_query_service srv k"
    for loads e
  proof -
    have "Option.bind x (\<lambda>s5. Option.bind (y s5)
            (\<lambda>s6. Option.bind (send_effector_query srv a (action a) False s6) g)) = None"
      for x :: "node option" and y :: "node \<Rightarrow> node option"
        and g :: "node \<Rightarrow> (error + node) option"
      using en[OF d] by (cases x) (auto simp: bind_eq_None_conv)
    then show ?thesis using na by (simp add: init_def Let_def)
  qed
  have "\<forall>loads e. action a \<noteq> ''arm_action'' \<and>
        (((truthy (object_name a) \<or> action2 a \<noteq> [] \<and> truthy (object_name2 a)) \<and>
          (\<forall>k. \<not> zone_service srv k)) \<or>
         (\<forall>k. \<not> effector_query_service srv k)) \<longrightarrow>
      init loads srv e a = None"
    using i1 i2 by blast
  then show ?thesis
    using z f i send_zone_fields[of srv obj b s] send_effector_fields[of srv a act b s]
    by (auto simp: view_def)
qed

theorem service_wait_unbounded_witness:
  "send_zone_request services_late ''bin7'' False new_node \<noteq> None \<and>
   send_effector_query services_late scan_args ''scan'' False new_node = None \<and>
   init loads_braces services_late env0 scan_args = None"
proof -
  have "up_from 2 2" by (simp add: up_from_def)
  then have "\<not> (\<forall>k\<ge>zone_polls new_node. \<not> zone_service services_late k)"
    by (auto simp: services_late_def new_node_def)
  moreover have e: "\<forall>k. \<not> effector_query_service services_late k"
    by (simp add: services_late_def never_up_def)
  moreover have "action scan_args \<noteq> ''arm_action''" by (simp add: scan_args_def)
  ultimately show ?thesis
    using service_wait_unbounded[of services_late "''bin7''" False new_node scan_args "''scan''"]
    by blast
qed

text \<open>
  Claim C9. In the couple/decouple script, an action other than \<open>couple\<close> and
  \<open>decouple\<close> makes the constructor raise \<open>ValueError\<close> before anything is sent: at that
  moment no message has been published, no subscription created, and the future is
  pending.
\<close>

theorem unknown_coupling_fails_fast:
  assumes "cd_action a \<notin> {''couple'', ''decouple''}"
  shows "fst (cd_init e a) = Some ValueError \<and>
         cd_pub (snd (cd_init e a)) = [] \<and>
         cd_sub (snd (cd_init e a)) = 0 \<and>
         cd_response (snd (cd_init e a)) = Pending"
  using assms by (simp add: cd_init_def Let_def cd_new_node_def)

theorem unknown_coupling_fails_fast_witness:
  "fst (cd_init env0 cd_args0) = Some ValueError \<and> cd_pub (snd (cd_init env0 cd_args0)) = []"
proof -
  have "cd_action cd_args0 \<notin> {''couple'', ''decouple''}" by (simp add: cd_args0_def)
  from unknown_coupling_fails_fast[OF this, of env0] show ?thesis by simp
qed

text \<open>
  Claim C10. For a slot with a non-empty object name and no zone name, the helper
  returns the activities list it was given, unchanged, whenever the action description
  parses; otherwise it raises. It appends neither a zone activity nor a
  \<open>perform_action\<close> activity.
\<close>

theorem object_without_zone_emits_nothing:
  assumes "truthy obj"
  shows "add_action_activities loads act obj None desc pl acts =
           (case loads desc of None \<Rightarrow> Inl JSONDecodeError | Some d \<Rightarrow> Inr acts)"
  using assms by (simp add: add_action_activities_def split: option.splits)

theorem object_without_zone_emits_nothing_witness:
  "add_action_activities loads_braces ''scan'' (Some ''bin7'') None ''{}'' [''wp1''] [] = Inr []"
proof -
  have "truthy (Some ''bin7'')" by simp
  from object_without_zone_emits_nothing[OF this, of loads_braces "''scan''" "''{}''" "[''wp1'']" "[]"] show ?thesis
    by (simp add: loads_braces_def)
qed

end
